theory Spec2Isabelle
  imports Complex_Main
begin

section \<open>The order book of \<open>src/OrderBook.ts\<close>\<close>

text \<open>
  The class \<open>OrderBook\<close> keeps the levels of one symbol in one array, \<open>this.book\<close>,
  and mutates it in place. The embedding passes the object explicitly: a method that
  changes the object takes it as a record and returns the record after the call; a
  query is a function of the record.

  Numbers. The source computes with JavaScript numbers, IEEE 754 binary64 doubles.
  Prices, quantities and order sizes are modelled as rationals (\<open>rat\<close>): every finite
  double is a rational. Comparisons, \<open>Math.min\<close> and the sign of a difference of two
  doubles are exact. The arithmetic of the slippage estimate takes the rounding of
  its operations as a parameter \<open>rnd\<close>: every operation of the source returns the
  rounding of its exact result, and \<open>rnd = double\<close> (below) is the arithmetic of the
  source, \<open>rnd = exact\<close> is arithmetic without rounding. \<open>NaN\<close> and the infinities
  are outside the model. Array indices, splice arguments, timestamps (epoch
  milliseconds) and \<open>maxDepth\<close> are integers (\<open>int\<close>), negative values included.
\<close>

subsection \<open>Data\<close>

datatype side = Buy | Sell

text \<open>
  Modelled from the spec: the type \<open>OrderBookLevelState\<close> is imported from
  \<open>./OrderBookLevel\<close>, which is not among the sources. The source reads a level as a
  tuple through the indices of \<open>EnumLevelProperty\<close> (symbol 0, price 1, side 2, qty 3,
  extraState 4); the spec's data model gives the field types: a string, a number, the
  enumeration Buy/Sell, a number, and an optional caller-defined payload.
\<close>

record 'e level =
  symbol :: string
  price :: rat
  side :: side
  qty :: rat
  extraState :: "'e option"

text \<open>The interface \<open>OrderBookOptions\<close>: every option may be omitted.\<close>

record OrderBookOptions =
  opt_checkTimestamps :: "bool option"
  opt_maxDepth :: "int option"
  opt_traceLog :: "bool option"

text \<open>The fields of the class (the field \<open>symbol\<close> of the class is \<open>book_symbol\<close> here).\<close>

record 'e OrderBook =
  book_symbol :: string
  book :: "'e level list"
  shouldCheckTimestamps :: bool
  lastUpdateTimestamp :: int
  maxDepth :: int

text \<open>
  Every failure of the source is a \<open>throw new Error(message)\<close>; the constructors name
  the four throw sites as the spec's error taxonomy does:
  \<open>StaleUpdateError\<close> is "Received data older than last tick",
  \<open>InvalidArgument\<close> is "Order size is not positive!",
  \<open>NoLiquidity\<close> is "No relevant levels found in orderbook!" and
  \<open>InsufficientLiquidity\<close> is "Could not fill the entire order".
\<close>

datatype error = StaleUpdateError | InvalidArgument | NoLiquidity | InsufficientLiquidity

subsection \<open>JavaScript array primitives\<close>

text \<open>
  \<open>Array.prototype.splice(start, deleteCount, ...items)\<close>, as ECMAScript defines it:
  a negative start counts from the end, the start is clamped to the array, and the
  delete count is clamped to what is left after the start.
\<close>

definition splice_js :: "'a list \<Rightarrow> int \<Rightarrow> int \<Rightarrow> 'a list \<Rightarrow> 'a list" where
  "splice_js xs start deleteCount items =
     (let len = int (length xs);
          actualStart = (if start < 0 then max (len + start) 0 else min start len);
          actualDeleteCount = min (max deleteCount 0) (len - actualStart)
      in take (nat actualStart) xs @ items @ drop (nat (actualStart + actualDeleteCount)) xs)"

text \<open>\<open>Array.prototype.findIndex\<close>: the first index whose element passes, else \<open>-1\<close>.\<close>

fun findIndex :: "('a \<Rightarrow> bool) \<Rightarrow> 'a list \<Rightarrow> int" where
  "findIndex P [] = - 1"
| "findIndex P (x # xs) =
     (if P x then 0 else (let i = findIndex P xs in if i = - 1 then - 1 else i + 1))"

text \<open>
  Reading \<open>xs[i]\<close> for a number \<open>i\<close>: \<open>undefined\<close> (here \<open>None\<close>) outside the array.
\<close>

definition at_index :: "'a list \<Rightarrow> int \<Rightarrow> 'a option" where
  "at_index xs i = (if 0 \<le> i \<and> i < int (length xs) then Some (xs ! nat i) else None)"

text \<open>
  \<open>(x).toFixed(0)\<close> read back as a number: the nearest integer, a tie going to the
  larger magnitude.
\<close>

definition toFixed0 :: "rat \<Rightarrow> int" where
  "toFixed0 x = (if 0 \<le> x then \<lfloor>x + 1 / 2\<rfloor> else - \<lfloor>- x + 1 / 2\<rfloor>)"

text \<open>
  The truthiness test \<open>!v\<close> on a value of type \<open>number | null\<close>: \<open>null\<close> and \<open>0\<close> are
  falsy.
\<close>

definition falsy :: "rat option \<Rightarrow> bool" where
  "falsy v = (case v of None \<Rightarrow> True | Some x \<Rightarrow> x = 0)"

subsection \<open>Double arithmetic\<close>

text \<open>
  The rounding of a rational to the nearest binary64 double, ties to the even
  significand. A double other than 0 is \<open>m * 2 ^ e\<close> for integers \<open>m\<close> and \<open>e\<close>, with
  \<open>2 ^ 52 \<le> \<bar>m\<bar> < 2 ^ 53\<close> and \<open>e \<ge> -1074\<close> (normal), or \<open>\<bar>m\<bar> < 2 ^ 52\<close> and
  \<open>e = -1074\<close> (subnormal). Results of magnitude \<open>2 ^ 1024\<close> and more, which the source
  rounds to an infinity, are outside the model.
\<close>

text \<open>The number of binary digits of a positive integer.\<close>

function bits :: "int \<Rightarrow> int" where
  "bits n = (if n \<le> 0 then 0 else bits (n div 2) + 1)"
  by pat_completeness auto
termination
  by (relation "measure nat") auto

declare bits.simps [simp del]

text \<open>\<open>floor_log2 y\<close> is the integer \<open>k\<close> with \<open>2 ^ k \<le> y < 2 ^ (k + 1)\<close>, for \<open>y > 0\<close>.\<close>

definition floor_log2 :: "rat \<Rightarrow> int" where
  "floor_log2 y = (if 1 \<le> y then bits \<lfloor>y\<rfloor> - 1 else - bits (\<lceil>1 / y\<rceil> - 1))"

definition round_ties_even :: "rat \<Rightarrow> int" where
  "round_ties_even x =
     (let f = \<lfloor>x\<rfloor>; d = x - of_int f
      in if d < 1 / 2 then f else if 1 / 2 < d then f + 1 else if even f then f else f + 1)"

definition pow2 :: "int \<Rightarrow> rat" where
  "pow2 e = (if 0 \<le> e then 2 ^ nat e else 1 / 2 ^ nat (- e))"

definition double :: "rat \<Rightarrow> rat" where
  "double x =
     (if x = 0 then 0
      else let e = max (floor_log2 \<bar>x\<bar> - 52) (- 1074)
           in of_int (round_ties_even (x / pow2 e)) * pow2 e)"

text \<open>Arithmetic without rounding.\<close>

definition exact :: "rat \<Rightarrow> rat" where
  "exact x = x"

subsection \<open>Construction\<close>

text \<open>
  The constructor. \<open>now\<close> is the value of \<open>new Date().getTime()\<close>.
  \<open>options.maxDepth || 250\<close> takes 250 for an omitted option and for 0.
\<close>

definition new_OrderBook :: "string \<Rightarrow> OrderBookOptions \<Rightarrow> int \<Rightarrow> 'e OrderBook" where
  "new_OrderBook name options now =
     \<lparr> book_symbol = name,
       book = [],
       shouldCheckTimestamps = (opt_checkTimestamps options = Some True),
       lastUpdateTimestamp = now,
       maxDepth = (case opt_maxDepth options of
                     None \<Rightarrow> 250
                   | Some d \<Rightarrow> if d = 0 then 250 else d) \<rparr>"

subsection \<open>Private helpers\<close>

definition replaceLevelAtIndex :: "'e OrderBook \<Rightarrow> int \<Rightarrow> 'e level \<Rightarrow> 'e OrderBook" where
  "replaceLevelAtIndex s i lvl = s\<lparr>book := splice_js (book s) i 1 [lvl]\<rparr>"

definition insertLevel :: "'e OrderBook \<Rightarrow> 'e level \<Rightarrow> 'e OrderBook" where
  "insertLevel s lvl = s\<lparr>book := book s @ [lvl]\<rparr>"

definition findIndexForSlice :: "'e OrderBook \<Rightarrow> 'e level \<Rightarrow> int" where
  "findIndexForSlice s lvl = findIndex (\<lambda>e. price e = price lvl) (book s)"

text \<open>
  \<open>checkTimestamp\<close> throws or returns a value nobody reads: the model returns the error
  thrown, if any.
\<close>

definition checkTimestamp :: "'e OrderBook \<Rightarrow> int \<Rightarrow> error option" where
  "checkTimestamp s timestamp =
     (if \<not> shouldCheckTimestamps s then None
      else if lastUpdateTimestamp s > timestamp then Some StaleUpdateError
      else None)"

text \<open>
  \<open>sort\<close>: \<open>Array.prototype.sort\<close> with the comparator \<open>b.price - a.price\<close>. The sort of
  ECMAScript 2019 is stable, and so is \<open>sort_key\<close>; descending by price is ascending
  by the negated price.
\<close>

definition sort_levels :: "'e OrderBook \<Rightarrow> 'e OrderBook" where
  "sort_levels s = s\<lparr>book := sort_key (\<lambda>e. - price e) (book s)\<rparr>"

definition trimSideCount :: "'e OrderBook \<Rightarrow> int \<Rightarrow> bool \<Rightarrow> 'e OrderBook" where
  "trimSideCount s totalToTrim shouldTrimTop =
     (if totalToTrim \<le> 0 then s
      else if shouldTrimTop then s\<lparr>book := splice_js (book s) 0 totalToTrim []\<rparr>
      else s\<lparr>book := splice_js (book s) (int (length (book s)) - totalToTrim - 1) totalToTrim []\<rparr>)"

text \<open>The reduce of \<open>trimToMaxDepth\<close>: a level that is not a Sell counts as a buy.\<close>

definition count_sells :: "'e level list \<Rightarrow> int" where
  "count_sells xs = int (length (filter (\<lambda>l. side l = Sell) xs))"

definition count_buys :: "'e level list \<Rightarrow> int" where
  "count_buys xs = int (length (filter (\<lambda>l. side l \<noteq> Sell) xs))"

definition trimToMaxDepth :: "'e OrderBook \<Rightarrow> 'e OrderBook" where
  "trimToMaxDepth s =
     (if int (length (book s)) \<le> maxDepth s then s
      else
        let maxPerSide = toFixed0 (of_int (maxDepth s) / 2);
            buysToTrim = count_buys (book s) - maxPerSide;
            sellsToTrim = count_sells (book s) - maxPerSide
        in trimSideCount (trimSideCount (sort_levels s) buysToTrim False) sellsToTrim True)"

definition trackDidUpdate :: "'e OrderBook \<Rightarrow> int \<Rightarrow> 'e OrderBook" where
  "trackDidUpdate s timestamp = s\<lparr>lastUpdateTimestamp := timestamp\<rparr>"

subsection \<open>Snapshots and deltas\<close>

text \<open>
  A mutating call returns the object after the call and the error it threw, if any.
  The timestamp is passed explicitly (the source defaults it to \<open>Date.now()\<close>).
\<close>

definition handleSnapshot ::
  "'e OrderBook \<Rightarrow> 'e level list \<Rightarrow> int \<Rightarrow> 'e OrderBook \<times> error option" where
  "handleSnapshot s data timestamp =
     (case checkTimestamp s timestamp of
        Some e \<Rightarrow> (s, Some e)
      | None \<Rightarrow>
          (trackDidUpdate (sort_levels (trimToMaxDepth (s\<lparr>book := data\<rparr>))) timestamp, None))"

text \<open>The bodies of the three \<open>forEach\<close> callbacks of \<open>handleDelta\<close>.\<close>

definition delete_level :: "'e OrderBook \<Rightarrow> 'e level \<Rightarrow> 'e OrderBook" where
  "delete_level s lvl =
     (let existingIndex = findIndexForSlice s lvl
      in if existingIndex \<noteq> - 1 then s\<lparr>book := splice_js (book s) existingIndex 1 []\<rparr> else s)"

definition upsert_level :: "'e OrderBook \<Rightarrow> 'e level \<Rightarrow> 'e OrderBook" where
  "upsert_level s lvl =
     (let existingIndex = findIndexForSlice s lvl
      in if existingIndex \<noteq> - 1 then replaceLevelAtIndex s existingIndex lvl
         else insertLevel s lvl)"

definition insert_level :: "'e OrderBook \<Rightarrow> 'e level \<Rightarrow> 'e OrderBook" where
  "insert_level s lvl =
     (let existingIndex = findIndexForSlice s lvl;
          s1 = (if existingIndex \<noteq> - 1 then replaceLevelAtIndex s existingIndex lvl else s)
      in insertLevel s1 lvl)"

definition handleDelta ::
  "'e OrderBook \<Rightarrow> 'e level list \<Rightarrow> 'e level list \<Rightarrow> 'e level list \<Rightarrow> int
     \<Rightarrow> 'e OrderBook \<times> error option" where
  "handleDelta s deleteDelta upsertDelta insertDelta timestamp =
     (case checkTimestamp s timestamp of
        Some e \<Rightarrow> (s, Some e)
      | None \<Rightarrow>
          (let s1 = foldl delete_level s deleteDelta;
               s2 = foldl upsert_level s1 upsertDelta;
               s3 = foldl insert_level s2 insertDelta
           in (trackDidUpdate (sort_levels (trimToMaxDepth s3)) timestamp, None)))"

text \<open>The book of \<open>handleDelta\<close> after its three batches, before the trim.\<close>

definition apply_batches ::
  "'e OrderBook \<Rightarrow> 'e level list \<Rightarrow> 'e level list \<Rightarrow> 'e level list \<Rightarrow> 'e OrderBook" where
  "apply_batches s deleteDelta upsertDelta insertDelta =
     foldl insert_level (foldl upsert_level (foldl delete_level s deleteDelta) upsertDelta)
       insertDelta"

text \<open>\<open>reset\<close> empties the store.\<close>

definition reset :: "'e OrderBook \<Rightarrow> 'e OrderBook" where
  "reset s = s\<lparr>book := []\<rparr>"

subsection \<open>Analytics\<close>

definition getBestAsk :: "'e OrderBook \<Rightarrow> int \<Rightarrow> rat option" where
  "getBestAsk s offset =
     (let sellSide = filter (\<lambda>e. side e = Sell) (book s);
          index = int (length sellSide) - 1 - offset
      in case at_index sellSide \<bar>index\<bar> of
           Some bottomSell \<Rightarrow> Some (price bottomSell)
         | None \<Rightarrow> None)"

definition getBestBid :: "'e OrderBook \<Rightarrow> int \<Rightarrow> rat option" where
  "getBestBid s offset =
     (let buySide = filter (\<lambda>e. side e = Buy) (book s)
      in case at_index buySide \<bar>offset\<bar> of
           Some topBuy \<Rightarrow> Some (price topBuy)
         | None \<Rightarrow> None)"

definition getSpreadPercent :: "'e OrderBook \<Rightarrow> int \<Rightarrow> rat option" where
  "getSpreadPercent s n =
     (let ask = getBestAsk s n; bid = getBestBid s n
      in if falsy bid \<or> falsy ask then None
         else Some ((1 - the bid / the ask) * 100))"

definition getSpreadBasisPoints :: "'e OrderBook \<Rightarrow> int \<Rightarrow> rat option" where
  "getSpreadBasisPoints s n =
     (let ask = getBestAsk s n; bid = getBestBid s n
      in if falsy bid \<or> falsy ask then None
         else Some ((1 - the bid / the ask) * 10000))"

text \<open>
  The fill loop of \<open>getEstimatedSlippage\<close>, on the levels still to visit, with the
  loop variables \<open>remainingSize\<close> and \<open>totalCost\<close>; it returns both at the loop's exit.
  \<open>fillQty * price\<close>, \<open>totalCost += ...\<close> and \<open>remainingSize -= fillQty\<close> are one
  rounded operation each.
\<close>

fun fill_levels :: "(rat \<Rightarrow> rat) \<Rightarrow> 'e level list \<Rightarrow> rat \<Rightarrow> rat \<Rightarrow> rat \<times> rat" where
  "fill_levels rnd [] remainingSize totalCost = (remainingSize, totalCost)"
| "fill_levels rnd (lvl # rest) remainingSize totalCost =
     (let fillQty = min remainingSize (qty lvl);
          totalCost' = rnd (totalCost + rnd (fillQty * price lvl));
          remainingSize' = rnd (remainingSize - fillQty)
      in if remainingSize' \<le> 0 then (remainingSize', totalCost')
         else fill_levels rnd rest remainingSize' totalCost')"

record slippage =
  executionPrice :: rat
  slippagePercent :: rat
  slippageBasisPoints :: rat

text \<open>
  The levels an order of side \<open>sd\<close> consumes: those of the other side.
\<close>

definition relevantLevels :: "'e OrderBook \<Rightarrow> side \<Rightarrow> 'e level list" where
  "relevantLevels s sd = filter (\<lambda>lvl. side lvl = (if sd = Buy then Sell else Buy)) (book s)"

text \<open>
  The order of the walk: lowest price first for a buy, highest first for a sell. The
  sort is stable, as \<open>sort\<close> above, and runs on a copy.
\<close>

definition sortedLevels :: "'e OrderBook \<Rightarrow> side \<Rightarrow> 'e level list" where
  "sortedLevels s sd =
     (if sd = Buy then sort_key (\<lambda>a. price a) (relevantLevels s sd)
      else sort_key (\<lambda>a. - price a) (relevantLevels s sd))"

text \<open>
  \<open>getEstimatedSlippage\<close> returns the value returned (\<open>None\<close> is \<open>null\<close>) or the error
  thrown, and the object after the call: the method works on fresh arrays (\<open>filter\<close>
  and the spread copy it sorts) and assigns no field. Every division, subtraction and
  multiplication is one rounded operation. The order size and the reference price it
  divides by are not 0 where it divides; an execution price of 0 on the sell branch,
  where the source divides by it and gets an infinity or \<open>NaN\<close>, is outside the model.
\<close>

definition getEstimatedSlippage ::
  "(rat \<Rightarrow> rat) \<Rightarrow> 'e OrderBook \<Rightarrow> rat \<Rightarrow> side
     \<Rightarrow> (error + slippage option) \<times> 'e OrderBook" where
  "getEstimatedSlippage rnd s baseOrderSize sd =
     (if baseOrderSize \<le> 0 then (Inl InvalidArgument, s)
      else if length (relevantLevels s sd) = 0 then (Inl NoLiquidity, s)
      else
        let (remainingSize, totalCost) = fill_levels rnd (sortedLevels s sd) baseOrderSize 0
        in if remainingSize > 0 then (Inl InsufficientLiquidity, s)
           else
             let executionPrice = rnd (totalCost / baseOrderSize);
                 bestPrice = (if sd = Buy then getBestAsk s 0 else getBestBid s 0)
             in if falsy bestPrice then (Inr None, s)
                else
                  let slippagePercent =
                        (if sd = Buy
                         then rnd (rnd (rnd (executionPrice / the bestPrice) - 1) * 100)
                         else rnd (rnd (rnd (the bestPrice / executionPrice) - 1) * 100));
                      slippageBasisPoints = rnd (slippagePercent * 100)
                  in (Inr (Some \<lparr> executionPrice = executionPrice,
                                   slippagePercent = slippagePercent,
                                   slippageBasisPoints = slippageBasisPoints \<rparr>), s))"

text \<open>
  No subtraction of the walk is rounded: at every level visited, the difference
  \<open>remainingSize - fillQty\<close> is a value of the arithmetic.
\<close>

fun walk_exact :: "(rat \<Rightarrow> rat) \<Rightarrow> 'e level list \<Rightarrow> rat \<Rightarrow> bool" where
  "walk_exact rnd [] remainingSize = True"
| "walk_exact rnd (lvl # rest) remainingSize =
     (let remainingSize' = remainingSize - min remainingSize (qty lvl)
      in rnd remainingSize' = remainingSize' \<and>
         (remainingSize' \<le> 0 \<or> walk_exact rnd rest remainingSize'))"

subsection \<open>Sequences of calls\<close>

text \<open>
  The public calls that change the book, as data: a feed is a sequence of snapshot and
  delta calls, and the owner may reset the book in between. A caller that catches the
  error of a rejected call goes on with the object as the call left it.
\<close>

datatype 'e call =
    Snapshot "'e level list" int
  | Delta "'e level list" "'e level list" "'e level list" int
  | Reset

fun apply_call :: "'e OrderBook \<Rightarrow> 'e call \<Rightarrow> 'e OrderBook" where
  "apply_call s (Snapshot data timestamp) = fst (handleSnapshot s data timestamp)"
| "apply_call s (Delta deleteDelta upsertDelta insertDelta timestamp) =
     fst (handleDelta s deleteDelta upsertDelta insertDelta timestamp)"
| "apply_call s Reset = reset s"

text \<open>Sorted by price, highest first, whatever the sides.\<close>

definition sorted_desc :: "'e level list \<Rightarrow> bool" where
  "sorted_desc xs = sorted_wrt (\<lambda>a b. price a \<ge> price b) xs"

text \<open>Shorthands for the concrete levels and options of the examples below.\<close>

abbreviation mk_level :: "rat \<Rightarrow> side \<Rightarrow> rat \<Rightarrow> unit level" where
  "mk_level p sd q \<equiv> \<lparr>symbol = ''BTCUSD'', price = p, side = sd, qty = q, extraState = None\<rparr>"

abbreviation mk_options :: "bool option \<Rightarrow> int option \<Rightarrow> OrderBookOptions" where
  "mk_options chk depth \<equiv>
     \<lparr>opt_checkTimestamps = chk, opt_maxDepth = depth, opt_traceLog = None\<rparr>"

section \<open>Auxiliary facts\<close>

subsection \<open>Arrays\<close>

lemma splice_inside:
  assumes "0 \<le> start" and "0 \<le> deleteCount" and "start + deleteCount \<le> int (length xs)"
  shows "splice_js xs start deleteCount items =
           take (nat start) xs @ items @ drop (nat (start + deleteCount)) xs"
proof -
  have a: "min start (int (length xs)) = start" using assms by simp
  have d: "min (max deleteCount 0) (int (length xs) - start) = deleteCount" using assms by simp
  show ?thesis using assms(1) by (simp add: splice_js_def Let_def a d)
qed

lemma length_splice_inside:
  assumes "0 \<le> start" and "0 \<le> deleteCount" and "start + deleteCount \<le> int (length xs)"
  shows "int (length (splice_js xs start deleteCount [])) = int (length xs) - deleteCount"
proof -
  have "length (take (nat start) xs) = nat start" using assms by simp
  moreover have "length (drop (nat (start + deleteCount)) xs) = length xs - nat (start + deleteCount)"
    by simp
  ultimately show ?thesis using assms by (simp add: splice_inside[OF assms])
qed

lemma replace_is_update:
  "0 \<le> i \<Longrightarrow> i < int (length xs) \<Longrightarrow> splice_js xs i 1 [v] = xs[nat i := v]"
proof -
  assume i: "0 \<le> i" "i < int (length xs)"
  then have "splice_js xs i 1 [v] = take (nat i) xs @ [v] @ drop (nat (i + 1)) xs"
    by (intro splice_inside) simp_all
  moreover have "nat (i + 1) = Suc (nat i)" using i by simp
  moreover have "nat i < length xs" using i by simp
  ultimately show ?thesis by (simp add: upd_conv_take_nth_drop)
qed

lemma findIndex_ge: "- 1 \<le> findIndex P xs"
  by (induction xs) (simp_all add: Let_def)

lemma findIndex_none: "(findIndex P xs = - 1) = (filter P xs = [])"
proof (induction xs)
  case Nil
  show ?case by simp
next
  case (Cons x xs)
  have "findIndex P xs + 1 \<noteq> - 1" using findIndex_ge[of P xs] by linarith
  then show ?case using Cons by (simp add: Let_def)
qed

text \<open>The index found splits the array: nothing before it passes the test.\<close>

lemma findIndex_split:
  "findIndex P xs \<noteq> - 1 \<Longrightarrow>
     0 \<le> findIndex P xs \<and> findIndex P xs < int (length xs) \<and>
     P (xs ! nat (findIndex P xs)) \<and> filter P (take (nat (findIndex P xs)) xs) = []"
proof (induction xs)
  case Nil
  then show ?case by simp
next
  case (Cons x xs)
  show ?case
  proof (cases "P x")
    case True
    then show ?thesis by simp
  next
    case False
    then have ne: "findIndex P xs \<noteq> - 1"
      using Cons.prems by (simp add: Let_def split: if_splits)
    then have eq: "findIndex P (x # xs) = findIndex P xs + 1"
      using False by (simp add: Let_def)
    have ih: "0 \<le> findIndex P xs \<and> findIndex P xs < int (length xs) \<and>
        P (xs ! nat (findIndex P xs)) \<and> filter P (take (nat (findIndex P xs)) xs) = []"
      using Cons.IH ne by simp
    then have n: "nat (findIndex P xs + 1) = Suc (nat (findIndex P xs))" by linarith
    show ?thesis unfolding eq n using ih False by simp
  qed
qed

lemma filter_single_update:
  assumes one: "length (filter P xs) = 1" and i: "i < length xs" and "P (xs ! i)" and "P v"
    and pre: "filter P (take i xs) = []"
  shows "filter P (xs[i := v]) = [v]"
proof -
  have xs: "xs = take i xs @ xs ! i # drop (Suc i) xs"
    using i by (simp add: id_take_nth_drop[symmetric])
  have "length (filter P xs)
          = length (filter P (take i xs)) + 1 + length (filter P (drop (Suc i) xs))"
    using assms(3) by (subst xs) simp
  then have "filter P (drop (Suc i) xs) = []" using one pre by simp
  then show ?thesis using pre i assms(4) by (simp add: upd_conv_take_nth_drop)
qed

lemma sum_list_insort_key:
  "sum_list (map g (insort_key f x xs)) = (g x :: rat) + sum_list (map g xs)"
  by (induction xs) (simp_all add: algebra_simps)

lemma sum_list_sort_key: "sum_list (map g (sort_key f xs)) = sum_list (map (g :: 'a \<Rightarrow> rat) xs)"
  by (induction xs) (simp_all add: sum_list_insort_key)

subsection \<open>Rounding the depth per side\<close>

lemma toFixed0_half_div: "0 \<le> m \<Longrightarrow> toFixed0 (of_int m / 2) = (m + 1) div 2"
proof -
  assume m: "0 \<le> m"
  have e: "(of_int m / 2 + 1 / 2 :: rat) = of_int (m + 1) / of_int 2"
    by (simp add: add_divide_distrib)
  have "\<lfloor>of_int m / 2 + 1 / 2 :: rat\<rfloor> = (m + 1) div 2"
    unfolding e by (rule floor_divide_of_int_eq)
  then show ?thesis using m by (simp add: toFixed0_def)
qed

subsection \<open>Sorting and tracking\<close>

lemma sorted_desc_sort_levels: "sorted_desc (book (sort_levels s))"
proof -
  have "sorted (map (\<lambda>e. - price e) (sort_key (\<lambda>e. - price e) (book s)))"
    by (rule sorted_sort_key)
  then show ?thesis
    by (simp add: sorted_desc_def sort_levels_def sorted_map)
qed

lemma length_sort_levels: "length (book (sort_levels s)) = length (book s)"
  by (simp add: sort_levels_def)

lemma book_trackDidUpdate: "book (trackDidUpdate s t) = book s"
  by (simp add: trackDidUpdate_def)

lemma handleSnapshot_sorted:
  "snd (handleSnapshot s data t) = None \<Longrightarrow> sorted_desc (book (fst (handleSnapshot s data t)))"
  by (simp add: handleSnapshot_def book_trackDidUpdate sorted_desc_sort_levels
      split: option.splits)

lemma handleDelta_sorted:
  "snd (handleDelta s d u i t) = None \<Longrightarrow> sorted_desc (book (fst (handleDelta s d u i t)))"
  by (simp add: handleDelta_def Let_def book_trackDidUpdate sorted_desc_sort_levels
      split: option.splits)

lemma handleSnapshot_failed:
  "snd (handleSnapshot s data t) \<noteq> None \<Longrightarrow> fst (handleSnapshot s data t) = s"
  by (simp add: handleSnapshot_def split: option.splits)

lemma handleDelta_failed:
  "snd (handleDelta s d u i t) \<noteq> None \<Longrightarrow> fst (handleDelta s d u i t) = s"
  by (simp add: handleDelta_def Let_def split: option.splits)

lemma apply_call_sorted: "sorted_desc (book s) \<Longrightarrow> sorted_desc (book (apply_call s c))"
proof (cases c)
  case (Snapshot data t)
  assume srt: "sorted_desc (book s)"
  show ?thesis
  proof (cases "snd (handleSnapshot s data t)")
    case None
    then show ?thesis using Snapshot handleSnapshot_sorted by simp
  next
    case (Some e)
    then have "fst (handleSnapshot s data t) = s"
      using handleSnapshot_failed[of s data t] by simp
    then show ?thesis using Snapshot srt by simp
  qed
next
  case (Delta d u i t)
  assume srt: "sorted_desc (book s)"
  show ?thesis
  proof (cases "snd (handleDelta s d u i t)")
    case None
    then show ?thesis using Delta handleDelta_sorted by simp
  next
    case (Some e)
    then have "fst (handleDelta s d u i t) = s"
      using handleDelta_failed[of s d u i t] by simp
    then show ?thesis using Delta srt by simp
  qed
next
  case Reset
  then show ?thesis by (simp add: reset_def sorted_desc_def)
qed

subsection \<open>The depth trimmer\<close>

lemma count_buys_sells: "count_buys xs + count_sells xs = int (length xs)"
  by (induction xs) (auto simp: count_buys_def count_sells_def)

lemma length_trimSideCount_back:
  assumes "0 \<le> int (length (book s)) - t - 1"
  shows "int (length (book (trimSideCount s t False))) = int (length (book s)) - max 0 t"
proof (cases "t \<le> 0")
  case True
  then show ?thesis by (simp add: trimSideCount_def)
next
  case False
  then have "int (length (splice_js (book s) (int (length (book s)) - t - 1) t []))
               = int (length (book s)) - t"
    using assms by (intro length_splice_inside) simp_all
  then show ?thesis using False by (simp add: trimSideCount_def)
qed

lemma length_trimSideCount_top:
  assumes "t \<le> int (length (book s))"
  shows "int (length (book (trimSideCount s t True))) = int (length (book s)) - max 0 t"
proof (cases "t \<le> 0")
  case True
  then show ?thesis by (simp add: trimSideCount_def)
next
  case False
  then have "int (length (splice_js (book s) 0 t [])) = int (length (book s)) - t"
    using assms by (intro length_splice_inside) simp_all
  then show ?thesis using False by (simp add: trimSideCount_def)
qed

text \<open>
  What the trim from the bottom removes: the \<open>t\<close> entries before the last one; the last
  entry stays.
\<close>

lemma trimSideCount_back_keeps_last:
  assumes "0 < t" and "t < int (length (book s))"
  shows "book (trimSideCount s t False)
           = take (length (book s) - nat t - 1) (book s) @ [last (book s)]"
proof -
  define xs where "xs = book s"
  have ne: "xs \<noteq> []" using assms by (auto simp: xs_def)
  have "splice_js xs (int (length xs) - t - 1) t []
          = take (nat (int (length xs) - t - 1)) xs @ [] @ drop (nat (int (length xs) - t - 1 + t)) xs"
    using assms by (intro splice_inside) (simp_all add: xs_def)
  moreover have "nat (int (length xs) - t - 1) = length xs - nat t - 1" using assms by linarith
  moreover have "nat (int (length xs) - t - 1 + t) = length xs - 1" by simp
  moreover have "drop (length xs - 1) xs = [last xs]"
    using ne by (cases xs rule: rev_cases) simp_all
  ultimately show ?thesis using assms(1) by (simp add: trimSideCount_def xs_def)
qed

lemma length_trimToMaxDepth:
  assumes "1 \<le> maxDepth s" and "maxDepth s < int (length (book s))"
  shows "int (length (book (trimToMaxDepth s))) =
           int (length (book s))
             - max 0 (count_buys (book s) - (maxDepth s + 1) div 2)
             - max 0 (count_sells (book s) - (maxDepth s + 1) div 2)"
proof -
  define k where "k = (maxDepth s + 1) div 2"
  define b where "b = count_buys (book s)"
  define c where "c = count_sells (book s)"
  define n where "n = int (length (book s))"
  have k1: "1 \<le> k" using assms(1) unfolding k_def by presburger
  have bc: "b + c = n" by (simp add: b_def c_def n_def count_buys_sells)
  have b0: "0 \<le> b" and c0: "0 \<le> c" by (simp_all add: b_def c_def count_buys_def count_sells_def)
  define s1 where "s1 = trimSideCount (sort_levels s) (b - k) False"
  have n1: "int (length (book (sort_levels s))) = n" by (simp add: n_def length_sort_levels)
  have "0 \<le> n - (b - k) - 1" using k1 bc c0 by linarith
  then have l1: "int (length (book s1)) = n - max 0 (b - k)"
    unfolding s1_def using length_trimSideCount_back[of "sort_levels s" "b - k"] n1 by simp
  have "c - k \<le> int (length (book s1))" using l1 k1 bc b0 by linarith
  then have l2: "int (length (book (trimSideCount s1 (c - k) True)))
                   = n - max 0 (b - k) - max 0 (c - k)"
    using length_trimSideCount_top[of "c - k" s1] l1 by simp
  have "toFixed0 (of_int (maxDepth s) / 2) = k"
    using assms(1) by (simp add: k_def toFixed0_half_div)
  then have "trimToMaxDepth s = trimSideCount s1 (c - k) True"
    using assms(2) by (simp add: trimToMaxDepth_def Let_def s1_def b_def c_def)
  then show ?thesis using l2 by (simp add: k_def b_def c_def n_def)
qed

text \<open>For an even cap the trimmer reaches the cap; for an odd one it can stop one above.\<close>

lemma trimToMaxDepth_bound_even:
  assumes "2 \<le> maxDepth s" and "even (maxDepth s)"
  shows "int (length (book (trimToMaxDepth s))) \<le> maxDepth s"
proof (cases "int (length (book s)) \<le> maxDepth s")
  case True
  then show ?thesis by (simp add: trimToMaxDepth_def)
next
  case False
  define k where "k = (maxDepth s + 1) div 2"
  have k: "maxDepth s = 2 * k" using assms(2) unfolding k_def by presburger
  have len: "int (length (book (trimToMaxDepth s))) =
      int (length (book s)) - max 0 (count_buys (book s) - k) - max 0 (count_sells (book s) - k)"
    unfolding k_def using False assms(1) by (intro length_trimToMaxDepth) simp_all
  have "count_buys (book s) + count_sells (book s) = int (length (book s))"
    by (rule count_buys_sells)
  then show ?thesis using len k False by linarith
qed

lemma trimToMaxDepth_bound_any:
  assumes "1 \<le> maxDepth s"
  shows "int (length (book (trimToMaxDepth s))) \<le> maxDepth s + 1"
proof (cases "int (length (book s)) \<le> maxDepth s")
  case True
  then show ?thesis by (simp add: trimToMaxDepth_def)
next
  case False
  define k where "k = (maxDepth s + 1) div 2"
  have k: "2 * k \<le> maxDepth s + 1" "maxDepth s \<le> 2 * k" unfolding k_def by presburger+
  have len: "int (length (book (trimToMaxDepth s))) =
      int (length (book s)) - max 0 (count_buys (book s) - k) - max 0 (count_sells (book s) - k)"
    unfolding k_def using False assms(1) by (intro length_trimToMaxDepth) simp_all
  have "count_buys (book s) + count_sells (book s) = int (length (book s))"
    by (rule count_buys_sells)
  then show ?thesis using len k False by linarith
qed

lemma maxDepth_trimToMaxDepth: "maxDepth (trimToMaxDepth s) = maxDepth s"
  by (simp add: trimToMaxDepth_def trimSideCount_def sort_levels_def Let_def)

lemma maxDepth_foldl_delete: "maxDepth (foldl delete_level s xs) = maxDepth s"
  by (induction xs arbitrary: s) (simp_all add: delete_level_def Let_def)

lemma maxDepth_foldl_upsert: "maxDepth (foldl upsert_level s xs) = maxDepth s"
  by (induction xs arbitrary: s)
    (simp_all add: upsert_level_def replaceLevelAtIndex_def insertLevel_def Let_def)

lemma maxDepth_foldl_insert: "maxDepth (foldl insert_level s xs) = maxDepth s"
  by (induction xs arbitrary: s)
    (simp_all add: insert_level_def replaceLevelAtIndex_def insertLevel_def Let_def)

lemma handleSnapshot_depth_even:
  assumes "snd (handleSnapshot s data t) = None" and "2 \<le> maxDepth s" and "even (maxDepth s)"
  shows "int (length (book (fst (handleSnapshot s data t)))) \<le> maxDepth s"
proof -
  have "int (length (book (trimToMaxDepth (s\<lparr>book := data\<rparr>)))) \<le> maxDepth (s\<lparr>book := data\<rparr>)"
    using assms(2,3) by (intro trimToMaxDepth_bound_even) simp_all
  then show ?thesis using assms(1)
    by (simp add: handleSnapshot_def book_trackDidUpdate length_sort_levels split: option.splits)
qed

lemma handleDelta_depth_even:
  assumes "snd (handleDelta s d u i t) = None" and "2 \<le> maxDepth s" and "even (maxDepth s)"
  shows "int (length (book (fst (handleDelta s d u i t)))) \<le> maxDepth s"
proof -
  define s3 where "s3 = foldl insert_level (foldl upsert_level (foldl delete_level s d) u) i"
  have m: "maxDepth s3 = maxDepth s"
    by (simp add: s3_def maxDepth_foldl_insert maxDepth_foldl_upsert maxDepth_foldl_delete)
  have "int (length (book (trimToMaxDepth s3))) \<le> maxDepth s3"
    using assms(2,3) m by (intro trimToMaxDepth_bound_even) simp_all
  then show ?thesis using assms(1) m
    by (simp add: handleDelta_def Let_def s3_def book_trackDidUpdate length_sort_levels
        split: option.splits)
qed

subsection \<open>The steps of a delta\<close>

lemma splice_remove_one:
  "0 \<le> i \<Longrightarrow> i < int (length xs) \<Longrightarrow> splice_js xs i 1 [] = take (nat i) xs @ drop (Suc (nat i)) xs"
proof -
  assume i: "0 \<le> i" "i < int (length xs)"
  then have "splice_js xs i 1 [] = take (nat i) xs @ [] @ drop (nat (i + 1)) xs"
    by (intro splice_inside) simp_all
  moreover have "nat (i + 1) = Suc (nat i)" using i by simp
  ultimately show ?thesis by simp
qed

lemma filter_remove_other:
  assumes "i < length xs" and "\<not> P (xs ! i)"
  shows "filter P (take i xs @ drop (Suc i) xs) = filter P xs"
proof -
  have "filter P xs = filter P (take i xs @ xs ! i # drop (Suc i) xs)"
    using assms(1) by (simp add: id_take_nth_drop[symmetric])
  then show ?thesis using assms(2) by simp
qed

lemma filter_update_other:
  assumes "i < length xs" and "\<not> P (xs ! i)" and "\<not> P v"
  shows "filter P (xs[i := v]) = filter P xs"
proof -
  have "filter P xs = filter P (take i xs @ xs ! i # drop (Suc i) xs)"
    using assms(1) by (simp add: id_take_nth_drop[symmetric])
  then show ?thesis using assms by (simp add: upd_conv_take_nth_drop)
qed

text \<open>Where a level of another price is looked up, the index found holds that other price.\<close>

lemma found_other_price:
  assumes "price lvl \<noteq> p" and "findIndexForSlice s lvl \<noteq> - 1"
  shows "0 \<le> findIndexForSlice s lvl \<and> findIndexForSlice s lvl < int (length (book s))
       \<and> nat (findIndexForSlice s lvl) < length (book s)
       \<and> price (book s ! nat (findIndexForSlice s lvl)) \<noteq> p"
proof -
  have "0 \<le> findIndexForSlice s lvl \<and> findIndexForSlice s lvl < int (length (book s))
       \<and> price (book s ! nat (findIndexForSlice s lvl)) = price lvl"
    using assms(2) findIndex_split[of "\<lambda>e. price e = price lvl" "book s"]
    by (simp add: findIndexForSlice_def)
  moreover from this have "nat (findIndexForSlice s lvl) < length (book s)" by linarith
  ultimately show ?thesis using assms(1) by simp
qed

lemma delete_level_other_price:
  assumes "price lvl \<noteq> p"
  shows "filter (\<lambda>e. price e = p) (book (delete_level s lvl)) = filter (\<lambda>e. price e = p) (book s)"
proof (cases "findIndexForSlice s lvl = - 1")
  case True
  then show ?thesis by (simp add: delete_level_def)
next
  case False
  note f = found_other_price[OF assms False]
  have "splice_js (book s) (findIndexForSlice s lvl) 1 []
          = take (nat (findIndexForSlice s lvl)) (book s) @ drop (Suc (nat (findIndexForSlice s lvl))) (book s)"
    using f by (intro splice_remove_one) simp_all
  then show ?thesis using False f by (simp add: delete_level_def Let_def filter_remove_other del: filter_append)
qed

lemma upsert_level_other_price:
  assumes "price lvl \<noteq> p"
  shows "filter (\<lambda>e. price e = p) (book (upsert_level s lvl)) = filter (\<lambda>e. price e = p) (book s)"
proof (cases "findIndexForSlice s lvl = - 1")
  case True
  then show ?thesis using assms by (simp add: upsert_level_def insertLevel_def)
next
  case False
  note f = found_other_price[OF assms False]
  have "splice_js (book s) (findIndexForSlice s lvl) 1 [lvl] = (book s)[nat (findIndexForSlice s lvl) := lvl]"
    using f by (intro replace_is_update) simp_all
  then show ?thesis using False f assms
    by (simp add: upsert_level_def replaceLevelAtIndex_def filter_update_other)
qed

lemma insert_level_other_price:
  assumes "price lvl \<noteq> p"
  shows "filter (\<lambda>e. price e = p) (book (insert_level s lvl)) = filter (\<lambda>e. price e = p) (book s)"
proof (cases "findIndexForSlice s lvl = - 1")
  case True
  then show ?thesis using assms by (simp add: insert_level_def insertLevel_def)
next
  case False
  note f = found_other_price[OF assms False]
  have "splice_js (book s) (findIndexForSlice s lvl) 1 [lvl] = (book s)[nat (findIndexForSlice s lvl) := lvl]"
    using f by (intro replace_is_update) simp_all
  then show ?thesis using False f assms
    by (simp add: insert_level_def replaceLevelAtIndex_def insertLevel_def filter_update_other)
qed

lemma foldl_delete_other_price:
  "\<forall>l\<in>set ls. price l \<noteq> p \<Longrightarrow>
     filter (\<lambda>e. price e = p) (book (foldl delete_level s ls)) = filter (\<lambda>e. price e = p) (book s)"
  by (induction ls arbitrary: s) (simp_all add: delete_level_other_price)

lemma foldl_upsert_other_price:
  "\<forall>l\<in>set ls. price l \<noteq> p \<Longrightarrow>
     filter (\<lambda>e. price e = p) (book (foldl upsert_level s ls)) = filter (\<lambda>e. price e = p) (book s)"
  by (induction ls arbitrary: s) (simp_all add: upsert_level_other_price)

lemma foldl_insert_other_price:
  "\<forall>l\<in>set ls. price l \<noteq> p \<Longrightarrow>
     filter (\<lambda>e. price e = p) (book (foldl insert_level s ls)) = filter (\<lambda>e. price e = p) (book s)"
  by (induction ls arbitrary: s) (simp_all add: insert_level_other_price)

text \<open>The insert of a stored price: replaced at the index found, and appended.\<close>

lemma insert_level_stored_price:
  assumes one: "length (filter (\<lambda>e. price e = p) (book s)) = 1" and p: "price lvl = p"
  shows "book (insert_level s lvl) = (book s)[nat (findIndexForSlice s lvl) := lvl] @ [lvl]"
    and "0 \<le> findIndexForSlice s lvl" and "findIndexForSlice s lvl < int (length (book s))"
    and "price (book s ! nat (findIndexForSlice s lvl)) = p"
    and "filter (\<lambda>e. price e = p) (book (insert_level s lvl)) = [lvl, lvl]"
proof -
  define i where "i = findIndexForSlice s lvl"
  have i_def': "i = findIndex (\<lambda>e. price e = p) (book s)"
    by (simp add: i_def findIndexForSlice_def p)
  have "filter (\<lambda>e. price e = p) (book s) \<noteq> []" using one by auto
  then have found: "i \<noteq> - 1" by (simp add: i_def' findIndex_none)
  then have idx: "0 \<le> i" "i < int (length (book s))" "price (book s ! nat i) = p"
    "filter (\<lambda>e. price e = p) (take (nat i) (book s)) = []"
    using findIndex_split[of "\<lambda>e. price e = p" "book s"] by (simp_all add: i_def')
  show bk: "book (insert_level s lvl) = (book s)[nat i := lvl] @ [lvl]"
    using found idx(1,2)
    by (simp add: insert_level_def Let_def i_def[symmetric] replaceLevelAtIndex_def
        insertLevel_def replace_is_update)
  show "0 \<le> i" "i < int (length (book s))" "price (book s ! nat i) = p" using idx by simp_all
  have "filter (\<lambda>e. price e = p) ((book s)[nat i := lvl]) = [lvl]"
    using one idx p by (intro filter_single_update) simp_all
  then show "filter (\<lambda>e. price e = p) (book (insert_level s lvl)) = [lvl, lvl]"
    using p by (simp add: bk)
qed

lemma length_delete_level: "length (book (delete_level s lvl)) \<le> length (book s)"
proof (cases "findIndexForSlice s lvl = - 1")
  case True
  then show ?thesis by (simp add: delete_level_def)
next
  case False
  then have "0 \<le> findIndexForSlice s lvl \<and> findIndexForSlice s lvl < int (length (book s))"
    using findIndex_split[of "\<lambda>e. price e = price lvl" "book s"]
    by (simp add: findIndexForSlice_def)
  then show ?thesis using False by (simp add: delete_level_def Let_def splice_remove_one)
qed

lemma length_upsert_level: "length (book (upsert_level s lvl)) \<le> length (book s) + 1"
proof (cases "findIndexForSlice s lvl = - 1")
  case True
  then show ?thesis by (simp add: upsert_level_def insertLevel_def)
next
  case False
  then have "0 \<le> findIndexForSlice s lvl \<and> findIndexForSlice s lvl < int (length (book s))"
    using findIndex_split[of "\<lambda>e. price e = price lvl" "book s"]
    by (simp add: findIndexForSlice_def)
  then show ?thesis using False
    by (simp add: upsert_level_def replaceLevelAtIndex_def replace_is_update)
qed

lemma length_insert_level: "length (book (insert_level s lvl)) = length (book s) + 1"
proof (cases "findIndexForSlice s lvl = - 1")
  case True
  then show ?thesis by (simp add: insert_level_def insertLevel_def)
next
  case False
  then have "0 \<le> findIndexForSlice s lvl \<and> findIndexForSlice s lvl < int (length (book s))"
    using findIndex_split[of "\<lambda>e. price e = price lvl" "book s"]
    by (simp add: findIndexForSlice_def)
  then show ?thesis using False
    by (simp add: insert_level_def replaceLevelAtIndex_def insertLevel_def replace_is_update)
qed

lemma length_foldl_delete: "length (book (foldl delete_level s ls)) \<le> length (book s)"
proof (induction ls arbitrary: s)
  case Nil
  show ?case by simp
next
  case (Cons l ls)
  have "length (book (foldl delete_level (delete_level s l) ls)) \<le> length (book (delete_level s l))"
    by (rule Cons.IH)
  then show ?case using length_delete_level[of s l] by simp
qed

lemma length_foldl_upsert: "length (book (foldl upsert_level s ls)) \<le> length (book s) + length ls"
proof (induction ls arbitrary: s)
  case Nil
  show ?case by simp
next
  case (Cons l ls)
  have "length (book (foldl upsert_level (upsert_level s l) ls))
          \<le> length (book (upsert_level s l)) + length ls"
    by (rule Cons.IH)
  then show ?case using length_upsert_level[of s l] by simp
qed

lemma length_foldl_insert: "length (book (foldl insert_level s ls)) = length (book s) + length ls"
  by (induction ls arbitrary: s) (simp_all add: length_insert_level)

lemma upsert_level_keeps_one:
  assumes "length (filter (\<lambda>e. price e = p) (book s)) = 1"
  shows "length (filter (\<lambda>e. price e = p) (book (upsert_level s lvl))) = 1"
proof (cases "price lvl = p")
  case False
  then show ?thesis using assms by (simp add: upsert_level_other_price)
next
  case True
  define i where "i = findIndexForSlice s lvl"
  have i_def': "i = findIndex (\<lambda>e. price e = p) (book s)"
    by (simp add: i_def findIndexForSlice_def True)
  have "filter (\<lambda>e. price e = p) (book s) \<noteq> []" using assms by auto
  then have found: "i \<noteq> - 1" by (simp add: i_def' findIndex_none)
  then have idx: "0 \<le> i" "i < int (length (book s))" "price (book s ! nat i) = p"
    "filter (\<lambda>e. price e = p) (take (nat i) (book s)) = []"
    using findIndex_split[of "\<lambda>e. price e = p" "book s"] by (simp_all add: i_def')
  have "book (upsert_level s lvl) = (book s)[nat i := lvl]"
    using found idx(1,2)
    by (simp add: upsert_level_def Let_def i_def[symmetric] replaceLevelAtIndex_def
        replace_is_update)
  moreover have "filter (\<lambda>e. price e = p) ((book s)[nat i := lvl]) = [lvl]"
    using assms idx True by (intro filter_single_update) simp_all
  ultimately show ?thesis by simp
qed

lemma foldl_upsert_keeps_one:
  "length (filter (\<lambda>e. price e = p) (book s)) = 1 \<Longrightarrow>
     length (filter (\<lambda>e. price e = p) (book (foldl upsert_level s ls))) = 1"
  by (induction ls arbitrary: s) (simp_all add: upsert_level_keeps_one)

lemma maxDepth_apply_batches: "maxDepth (apply_batches s d u i) = maxDepth s"
  by (simp add: apply_batches_def maxDepth_foldl_insert maxDepth_foldl_upsert
      maxDepth_foldl_delete)

lemma length_apply_batches:
  "length (book (apply_batches s d u i)) = length (book (apply_batches s d u [])) + length i"
  by (simp add: apply_batches_def length_foldl_insert)

text \<open>An accepted delta whose batches leave the book within the cap is sorted, not trimmed.\<close>

lemma handleDelta_untrimmed:
  assumes "checkTimestamp s timestamp = None"
    and "int (length (book (apply_batches s d u i))) \<le> maxDepth s"
  shows "snd (handleDelta s d u i timestamp) = None"
    and "book (fst (handleDelta s d u i timestamp))
           = sort_key (\<lambda>e. - price e) (book (apply_batches s d u i))"
proof -
  have notrim: "trimToMaxDepth (apply_batches s d u i) = apply_batches s d u i"
    using assms(2) by (simp add: trimToMaxDepth_def maxDepth_apply_batches)
  have res: "handleDelta s d u i timestamp
               = (trackDidUpdate (sort_levels (apply_batches s d u i)) timestamp, None)"
    using assms(1) notrim by (simp add: handleDelta_def Let_def apply_batches_def)
  show "snd (handleDelta s d u i timestamp) = None" by (simp add: res)
  show "book (fst (handleDelta s d u i timestamp))
           = sort_key (\<lambda>e. - price e) (book (apply_batches s d u i))"
    by (simp add: res trackDidUpdate_def sort_levels_def)
qed

text \<open>The call whose only batch entry is the insert of a stored price.\<close>

lemma insert_single_existing_price:
  assumes one: "length (filter (\<lambda>e. price e = p) (book s)) = 1"
    and p: "price lvl = p"
    and room: "int (length (book s)) + 1 \<le> maxDepth s"
    and ts: "checkTimestamp s timestamp = None"
  shows "snd (handleDelta s [] [] [lvl] timestamp) = None
       \<and> 0 \<le> findIndexForSlice s lvl \<and> findIndexForSlice s lvl < int (length (book s))
       \<and> price (book s ! nat (findIndexForSlice s lvl)) = p
       \<and> book (fst (handleDelta s [] [] [lvl] timestamp))
           = sort_key (\<lambda>e. - price e) ((book s)[nat (findIndexForSlice s lvl) := lvl] @ [lvl])
       \<and> filter (\<lambda>e. price e = p) (book (fst (handleDelta s [] [] [lvl] timestamp)))
           = [lvl, lvl]
       \<and> length (book (fst (handleDelta s [] [] [lvl] timestamp))) = length (book s) + 1"
proof -
  define s3 where "s3 = insert_level s lvl"
  note step = insert_level_stored_price[OF one p]
  have len: "length (book s3) = length (book s) + 1"
    by (simp add: s3_def length_insert_level)
  have "maxDepth s3 = maxDepth s"
    using maxDepth_foldl_insert[of s "[lvl]"] by (simp add: s3_def)
  then have notrim: "trimToMaxDepth s3 = s3"
    using room len by (simp add: trimToMaxDepth_def)
  have res: "handleDelta s [] [] [lvl] timestamp
          = (trackDidUpdate (sort_levels s3) timestamp, None)"
    using ts by (simp add: handleDelta_def Let_def s3_def[symmetric] notrim)
  have bk: "book (fst (handleDelta s [] [] [lvl] timestamp))
          = sort_key (\<lambda>e. - price e) (book s3)"
    by (simp add: res trackDidUpdate_def sort_levels_def)
  have flt: "filter (\<lambda>e. price e = p) (sort_key (\<lambda>e. - price e) (book s3)) = [lvl, lvl]"
    using step(5) by (simp add: filter_sort s3_def)
  show ?thesis
    using step(2,3,4) flt len step(1)[folded s3_def] by (simp add: bk) (simp add: res)
qed

subsection \<open>The fill loop\<close>

text \<open>
  With no negative quantity on the way, what is left of the order after the walk is the
  order size less the total quantity, or nothing.
\<close>

lemma fill_levels_remaining:
  "\<forall>l\<in>set ls. 0 \<le> qty l \<Longrightarrow> 0 < r \<Longrightarrow> walk_exact rnd ls r \<Longrightarrow>
     fst (fill_levels rnd ls r c) = max 0 (r - sum_list (map qty ls))"
proof (induction ls arbitrary: r c)
  case Nil
  then show ?case by simp
next
  case (Cons l ls)
  have rest: "0 \<le> sum_list (map qty ls)"
    using Cons.prems(1) by (intro sum_list_nonneg) auto
  show ?case
  proof (cases "r \<le> qty l")
    case True
    then have "rnd 0 = 0" using Cons.prems(3) by (simp add: Let_def min_def)
    then show ?thesis using True rest by (simp add: Let_def min_def)
  next
    case False
    then have pos: "0 < r - qty l" by simp
    have ex: "rnd (r - qty l) = r - qty l" and w: "walk_exact rnd ls (r - qty l)"
      using Cons.prems(3) False by (simp_all add: Let_def min_def)
    have step: "fill_levels rnd (l # ls) r c
            = fill_levels rnd ls (r - qty l) (rnd (c + rnd (qty l * price l)))"
      using False pos by (simp add: Let_def min_def ex)
    have "fst (fill_levels rnd ls (r - qty l) (rnd (c + rnd (qty l * price l))))
            = max 0 (r - qty l - sum_list (map qty ls))"
      using Cons.IH[OF _ pos w] Cons.prems(1) by simp
    moreover have "r - qty l - sum_list (map qty ls) = r - sum_list (map qty (l # ls))"
      by simp
    ultimately show ?thesis unfolding step by (simp only:)
  qed
qed

lemma walk_exact_exact: "walk_exact exact ls r"
  by (induction ls arbitrary: r) (simp_all add: Let_def exact_def)

lemma sum_list_sortedLevels:
  "sum_list (map qty (sortedLevels s sd)) = sum_list (map qty (relevantLevels s sd))"
  by (simp add: sortedLevels_def sum_list_sort_key)

lemma set_sortedLevels: "set (sortedLevels s sd) = set (relevantLevels s sd)"
  by (simp add: sortedLevels_def)

text \<open>The error of an unfilled order is the test \<open>remainingSize > 0\<close> after the walk.\<close>

lemma slippage_unfilled_walk:
  assumes "0 < orderSize" and "relevantLevels s sd \<noteq> []"
  shows "(fst (getEstimatedSlippage rnd s orderSize sd) = Inl InsufficientLiquidity)
           = (0 < fst (fill_levels rnd (sortedLevels s sd) orderSize 0))"
  using assms by (simp add: getEstimatedSlippage_def Let_def split: prod.splits)

lemma slippage_unfilled:
  assumes "0 < orderSize" and "relevantLevels s sd \<noteq> []"
    and "\<forall>l\<in>set (relevantLevels s sd). 0 \<le> qty l"
    and "walk_exact rnd (sortedLevels s sd) orderSize"
  shows "(fst (getEstimatedSlippage rnd s orderSize sd) = Inl InsufficientLiquidity)
           = (sum_list (map qty (relevantLevels s sd)) < orderSize)"
proof -
  have "\<forall>l\<in>set (sortedLevels s sd). 0 \<le> qty l"
    using assms(3) by (simp add: set_sortedLevels)
  then have rem: "fst (fill_levels rnd (sortedLevels s sd) orderSize 0)
                    = max 0 (orderSize - sum_list (map qty (relevantLevels s sd)))"
    using assms(1,4) fill_levels_remaining[of "sortedLevels s sd" orderSize rnd 0]
    by (simp add: sum_list_sortedLevels)
  show ?thesis
    unfolding slippage_unfilled_walk[OF assms(1,2)] rem by (simp add: max_def)
qed

subsection \<open>Doubles on examples\<close>

text \<open>
  Small integers are doubles; \<open>10000000000000003\<close> is not, and lies half way between
  two doubles.
\<close>

lemma double_small: "double 8 = 8" "double 5 = 5" "double 2 = 2"
  by code_simp+

lemma double_tie: "double 10000000000000003 = 10000000000000004"
  by code_simp

text \<open>The doubles nearest to 0.1 and to 1/3, and the sum of the doubles of 0.1 and 0.2.\<close>

lemma double_decimals:
  "double (1 / 10) = 3602879701896397 / 2 ^ 55"
  "double (1 / 3) = 6004799503160661 / 2 ^ 54"
  "double (double (1 / 10) + double (2 / 10)) = 5404319552844596 / 2 ^ 54"
  by code_simp+

text \<open>Above \<open>2 ^ 53\<close> the odd integers are ties; they go to the even significand.\<close>

lemma double_ties:
  "double (2 ^ 53 + 1) = 2 ^ 53"
  "double (2 ^ 53 + 3) = 2 ^ 53 + 4"
  by code_simp+

subsection \<open>Best bid and ask\<close>

lemma getBestAsk_no_sells:
  "filter (\<lambda>e. side e = Sell) (book s) = [] \<Longrightarrow> getBestAsk s offset = None"
  by (simp add: getBestAsk_def at_index_def Let_def)

text \<open>\<open>getBestBid\<close> takes the absolute value of the offset itself.\<close>

lemma getBestBid_abs: "getBestBid s (- offset) = getBestBid s offset"
  by (simp add: getBestBid_def)

lemma getBestBid_out_of_range:
  "int (length (filter (\<lambda>e. side e = Buy) (book s))) \<le> \<bar>offset\<bar>
     \<Longrightarrow> getBestBid s offset = None"
  by (simp add: getBestBid_def at_index_def Let_def)

section \<open>The claims\<close>

text \<open>
  C1 (depth bound). The claim: after a \<open>handleSnapshot\<close> or \<open>handleDelta\<close> call returns,
  with any \<open>maxDepth\<close> of at least 1, the number of stored levels is at most \<open>maxDepth\<close>.
  The code misses the bound for an odd cap: \<open>maxPerSide\<close> rounds \<open>maxDepth / 2\<close> up, so
  two sides trimmed to \<open>maxPerSide\<close> hold \<open>maxDepth + 1\<close> levels. A book built with
  \<open>maxDepth = 3\<close> takes a snapshot, or an insert batch, of two sells and two buys: the
  call returns and four levels are stored. (For an even cap the bound holds, lemmas
  \<open>handleSnapshot_depth_even\<close> and \<open>handleDelta_depth_even\<close>.)
\<close>

theorem depth_bound_exceeded:
  "maxDepth (new_OrderBook ''BTCUSD'' (mk_options None (Some 3)) 0 :: unit OrderBook) = 3
   \<and> snd (handleSnapshot (new_OrderBook ''BTCUSD'' (mk_options None (Some 3)) 0)
        [mk_level 102 Sell 1, mk_level 101 Sell 1, mk_level 100 Buy 1, mk_level 99 Buy 1] 1) = None
   \<and> length (book (fst (handleSnapshot (new_OrderBook ''BTCUSD'' (mk_options None (Some 3)) 0)
        [mk_level 102 Sell 1, mk_level 101 Sell 1, mk_level 100 Buy 1, mk_level 99 Buy 1] 1))) = 4
   \<and> snd (handleDelta (new_OrderBook ''BTCUSD'' (mk_options None (Some 3)) 0) [] []
        [mk_level 102 Sell 1, mk_level 101 Sell 1, mk_level 100 Buy 1, mk_level 99 Buy 1] 1) = None
   \<and> length (book (fst (handleDelta (new_OrderBook ''BTCUSD'' (mk_options None (Some 3)) 0) [] []
        [mk_level 102 Sell 1, mk_level 101 Sell 1, mk_level 100 Buy 1, mk_level 99 Buy 1] 1))) = 4"
  by (simp add: new_OrderBook_def handleSnapshot_def handleDelta_def checkTimestamp_def
      insert_level_def findIndexForSlice_def insertLevel_def
      trimToMaxDepth_def count_buys_def count_sells_def toFixed0_def sort_levels_def
      trimSideCount_def splice_js_def trackDidUpdate_def Let_def)

text \<open>
  C2 (best ask and its offset). The claim: \<open>getBestAsk(offset)\<close> returns \<open>null\<close> when
  there is no sell level or the offset exceeds the range of the sell sublist, and a
  negative offset is read as its absolute value. The code takes the absolute value of
  the index \<open>length - 1 - offset\<close>, not of the offset (as \<open>getBestBid\<close> does). With the
  two sells 101 and 100 stored, offset 2 is out of range and yet returns 100, and
  offset \<open>-1\<close> returns \<open>null\<close> although offset 1 returns 101.
\<close>

theorem getBestAsk_offset_misread:
  "book (fst (handleSnapshot (new_OrderBook ''BTCUSD'' (mk_options None None) 0)
       [mk_level 101 Sell 1, mk_level 100 Sell 1] 1))
     = [mk_level 101 Sell 1, mk_level 100 Sell 1]
   \<and> getBestAsk (fst (handleSnapshot (new_OrderBook ''BTCUSD'' (mk_options None None) 0)
       [mk_level 101 Sell 1, mk_level 100 Sell 1] 1)) 2 = Some 100
   \<and> getBestAsk (fst (handleSnapshot (new_OrderBook ''BTCUSD'' (mk_options None None) 0)
       [mk_level 101 Sell 1, mk_level 100 Sell 1] 1)) (- 1) = None
   \<and> getBestAsk (fst (handleSnapshot (new_OrderBook ''BTCUSD'' (mk_options None None) 0)
       [mk_level 101 Sell 1, mk_level 100 Sell 1] 1)) 1 = Some 101"
  by (simp add: new_OrderBook_def handleSnapshot_def checkTimestamp_def trimToMaxDepth_def
      sort_levels_def trackDidUpdate_def getBestAsk_def at_index_def Let_def)

text \<open>
  C3 (buys are trimmed from the back). The claim: when the trimmer runs with
  \<open>buysToTrim > 0\<close>, it removes exactly the \<open>buysToTrim\<close> entries at the highest
  indices of the price-descending sequence. The code starts its splice one entry too
  early (\<open>book.length - totalToTrim - 1\<close>): it removes the entries before the last one
  and keeps the last (lemma \<open>trimSideCount_back_keeps_last\<close>). With \<open>maxDepth = 2\<close> and
  a snapshot of the buys 3, 2 and 1, two buys are to go; the claim leaves the buy at 3,
  the code leaves the buy at 1.
\<close>

theorem trim_buys_removes_best_bids:
  "book (fst (handleSnapshot (new_OrderBook ''BTCUSD'' (mk_options None (Some 2)) 0)
       [mk_level 3 Buy 1, mk_level 2 Buy 1, mk_level 1 Buy 1] 1)) = [mk_level 1 Buy 1]
   \<and> book (trimSideCount
        ((new_OrderBook ''BTCUSD'' (mk_options None (Some 2)) 0)
           \<lparr>book := [mk_level 3 Buy 1, mk_level 2 Buy 1, mk_level 1 Buy 1]\<rparr>) 2 False)
       = [mk_level 1 Buy 1]"
  by (simp add: new_OrderBook_def handleSnapshot_def checkTimestamp_def
      trimToMaxDepth_def count_buys_def count_sells_def toFixed0_def sort_levels_def
      trimSideCount_def splice_js_def trackDidUpdate_def Let_def)

text \<open>
  C4 (stale updates). With timestamp checking enabled, a \<open>handleSnapshot\<close> or
  \<open>handleDelta\<close> call whose timestamp is strictly less than \<open>lastUpdateTimestamp\<close> throws
  the stale-update error and leaves the object (its levels and its
  \<open>lastUpdateTimestamp\<close>) as it was; a timestamp equal to \<open>lastUpdateTimestamp\<close> is
  accepted.
\<close>

theorem stale_update_rejected:
  assumes "shouldCheckTimestamps s"
  shows "(timestamp < lastUpdateTimestamp s \<longrightarrow>
            handleSnapshot s data timestamp = (s, Some StaleUpdateError) \<and>
            handleDelta s deleteDelta upsertDelta insertDelta timestamp
              = (s, Some StaleUpdateError))
       \<and> (timestamp = lastUpdateTimestamp s \<longrightarrow>
            snd (handleSnapshot s data timestamp) = None \<and>
            snd (handleDelta s deleteDelta upsertDelta insertDelta timestamp) = None)"
  using assms by (simp add: handleSnapshot_def handleDelta_def checkTimestamp_def Let_def)

theorem stale_update_rejected_witness:
  "shouldCheckTimestamps
     (new_OrderBook ''BTCUSD'' (mk_options (Some True) None) 10 :: unit OrderBook)
   \<and> lastUpdateTimestamp
     (new_OrderBook ''BTCUSD'' (mk_options (Some True) None) 10 :: unit OrderBook) = 10
   \<and> handleSnapshot (new_OrderBook ''BTCUSD'' (mk_options (Some True) None) 10)
       [mk_level 100 Buy 1] 9
       = (new_OrderBook ''BTCUSD'' (mk_options (Some True) None) 10, Some StaleUpdateError)
   \<and> handleDelta (new_OrderBook ''BTCUSD'' (mk_options (Some True) None) 10)
       [] [mk_level 100 Buy 1] [] 9
       = (new_OrderBook ''BTCUSD'' (mk_options (Some True) None) 10, Some StaleUpdateError)
   \<and> snd (handleSnapshot (new_OrderBook ''BTCUSD'' (mk_options (Some True) None) 10)
       [mk_level 100 Buy 1] 10) = None
   \<and> snd (handleDelta (new_OrderBook ''BTCUSD'' (mk_options (Some True) None) 10)
       [] [mk_level 100 Buy 1] [] 10) = None"
proof -
  let ?s = "new_OrderBook ''BTCUSD'' (mk_options (Some True) None) 10 :: unit OrderBook"
  have chk: "shouldCheckTimestamps ?s" and last: "lastUpdateTimestamp ?s = 10"
    by (simp_all add: new_OrderBook_def)
  show ?thesis
    using chk last
      stale_update_rejected[OF chk, of 9 "[mk_level 100 Buy 1]" "[]" "[mk_level 100 Buy 1]" "[]"]
      stale_update_rejected[OF chk, of 10 "[mk_level 100 Buy 1]" "[]" "[mk_level 100 Buy 1]" "[]"]
    by simp
qed

text \<open>
  C5 (errors of the slippage estimate). The claim: \<open>getEstimatedSlippage\<close> throws the
  invalid-argument error exactly when the order size is not positive; for a positive
  size it throws the no-liquidity error exactly when the opposite side has no level;
  for a positive size and a non-empty opposite side whose quantities are not negative
  it throws the insufficient-liquidity error exactly when the total quantity of the
  opposite side is less than the order size; no failing call modifies the book. The
  third part fails in the arithmetic of the source. With sells of quantity 1, 1 and
  10000000000000002 stored and a buy of size 10000000000000004, the total is the
  order size, yet the walk subtracts 1 twice without effect (10000000000000003 rounds
  back to 10000000000000004), ends with 2 remaining and throws.
\<close>

theorem slippage_total_counterexample:
  "relevantLevels (fst (handleSnapshot (new_OrderBook ''BTCUSD'' (mk_options None None) 0)
       [mk_level 100 Sell 1, mk_level 101 Sell 1, mk_level 102 Sell 10000000000000002] 1)) Buy
     = [mk_level 102 Sell 10000000000000002, mk_level 101 Sell 1, mk_level 100 Sell 1]
   \<and> sum_list (map qty (relevantLevels
       (fst (handleSnapshot (new_OrderBook ''BTCUSD'' (mk_options None None) 0)
         [mk_level 100 Sell 1, mk_level 101 Sell 1, mk_level 102 Sell 10000000000000002] 1))
       Buy)) = 10000000000000004
   \<and> fst (getEstimatedSlippage double
       (fst (handleSnapshot (new_OrderBook ''BTCUSD'' (mk_options None None) 0)
         [mk_level 100 Sell 1, mk_level 101 Sell 1, mk_level 102 Sell 10000000000000002] 1))
       10000000000000004 Buy) = Inl InsufficientLiquidity"
  by (simp add: new_OrderBook_def handleSnapshot_def checkTimestamp_def trimToMaxDepth_def
      sort_levels_def trackDidUpdate_def relevantLevels_def sortedLevels_def
      getEstimatedSlippage_def Let_def double_tie double_small)

text \<open>
  The same with decimal quantities: the doubles of 0.1, 0.1 and 0.2 add up to the
  double of 0.4 exactly, and a buy of that size ends the walk with \<open>2 ^ -55\<close> remaining.
\<close>

lemma slippage_decimal_example:
  "sum_list (map qty (relevantLevels
       (fst (handleSnapshot (new_OrderBook ''BTCUSD'' (mk_options None None) 0)
         [mk_level 100 Sell (double (1 / 10)), mk_level 101 Sell (double (1 / 10)),
          mk_level 102 Sell (double (2 / 10))] 1)) Buy)) = double (4 / 10)
   \<and> fst (fill_levels double (sortedLevels
       (fst (handleSnapshot (new_OrderBook ''BTCUSD'' (mk_options None None) 0)
         [mk_level 100 Sell (double (1 / 10)), mk_level 101 Sell (double (1 / 10)),
          mk_level 102 Sell (double (2 / 10))] 1)) Buy) (double (4 / 10)) 0) = 1 / 2 ^ 55
   \<and> fst (getEstimatedSlippage double
       (fst (handleSnapshot (new_OrderBook ''BTCUSD'' (mk_options None None) 0)
         [mk_level 100 Sell (double (1 / 10)), mk_level 101 Sell (double (1 / 10)),
          mk_level 102 Sell (double (2 / 10))] 1))
       (double (4 / 10)) Buy) = Inl InsufficientLiquidity"
  by code_simp

text \<open>
  C5 as amended. In any arithmetic: \<open>getEstimatedSlippage\<close> throws the invalid-argument
  error exactly when the order size is not positive; for a positive size it throws
  the no-liquidity error exactly when the opposite side has no level; for a positive
  size and a non-empty opposite side it throws the insufficient-liquidity error
  exactly when the size remaining after the walk over the levels is positive; when
  moreover no quantity of the opposite side is negative and no subtraction of the walk
  is rounded, that is exactly when the total quantity of the opposite side is less
  than the order size. The call leaves the object as it was, failing or not.
\<close>

theorem slippage_errors:
  "((fst (getEstimatedSlippage rnd s orderSize sd) = Inl InvalidArgument) = (orderSize \<le> 0))
   \<and> (0 < orderSize \<longrightarrow>
        (fst (getEstimatedSlippage rnd s orderSize sd) = Inl NoLiquidity)
          = (relevantLevels s sd = []))
   \<and> (0 < orderSize \<and> relevantLevels s sd \<noteq> [] \<longrightarrow>
        (fst (getEstimatedSlippage rnd s orderSize sd) = Inl InsufficientLiquidity)
          = (0 < fst (fill_levels rnd (sortedLevels s sd) orderSize 0)))
   \<and> (0 < orderSize \<and> relevantLevels s sd \<noteq> [] \<and>
        (\<forall>l\<in>set (relevantLevels s sd). 0 \<le> qty l) \<and>
        walk_exact rnd (sortedLevels s sd) orderSize \<longrightarrow>
        (fst (getEstimatedSlippage rnd s orderSize sd) = Inl InsufficientLiquidity)
          = (sum_list (map qty (relevantLevels s sd)) < orderSize))
   \<and> snd (getEstimatedSlippage rnd s orderSize sd) = s"
proof (intro conjI impI)
  show "(fst (getEstimatedSlippage rnd s orderSize sd) = Inl InvalidArgument) = (orderSize \<le> 0)"
    by (simp add: getEstimatedSlippage_def Let_def split: prod.splits)
  show "(fst (getEstimatedSlippage rnd s orderSize sd) = Inl NoLiquidity)
          = (relevantLevels s sd = [])"
    if "0 < orderSize"
    using that by (simp add: getEstimatedSlippage_def Let_def split: prod.splits)
  show "(fst (getEstimatedSlippage rnd s orderSize sd) = Inl InsufficientLiquidity)
          = (0 < fst (fill_levels rnd (sortedLevels s sd) orderSize 0))"
    if "0 < orderSize \<and> relevantLevels s sd \<noteq> []"
    using that by (simp add: slippage_unfilled_walk)
  show "(fst (getEstimatedSlippage rnd s orderSize sd) = Inl InsufficientLiquidity)
          = (sum_list (map qty (relevantLevels s sd)) < orderSize)"
    if "0 < orderSize \<and> relevantLevels s sd \<noteq> [] \<and>
        (\<forall>l\<in>set (relevantLevels s sd). 0 \<le> qty l) \<and>
        walk_exact rnd (sortedLevels s sd) orderSize"
    using that by (intro slippage_unfilled) simp_all
  show "snd (getEstimatedSlippage rnd s orderSize sd) = s"
    by (simp add: getEstimatedSlippage_def Let_def split: prod.splits)
qed

theorem slippage_errors_witness:
  "relevantLevels (fst (handleSnapshot (new_OrderBook ''BTCUSD'' (mk_options None None) 0)
       [mk_level 101 Sell 3, mk_level 100 Sell 2, mk_level 99 Buy 4] 1)) Buy
     = [mk_level 101 Sell 3, mk_level 100 Sell 2]
   \<and> walk_exact double
       (sortedLevels (fst (handleSnapshot (new_OrderBook ''BTCUSD'' (mk_options None None) 0)
          [mk_level 101 Sell 3, mk_level 100 Sell 2, mk_level 99 Buy 4] 1)) Buy) 10
   \<and> fst (getEstimatedSlippage double
       (fst (handleSnapshot (new_OrderBook ''BTCUSD'' (mk_options None None) 0)
          [mk_level 101 Sell 3, mk_level 100 Sell 2, mk_level 99 Buy 4] 1)) 10 Buy)
     = Inl InsufficientLiquidity
   \<and> 0 < fst (fill_levels double
       (sortedLevels (fst (handleSnapshot (new_OrderBook ''BTCUSD'' (mk_options None None) 0)
          [mk_level 101 Sell 3, mk_level 100 Sell 2, mk_level 99 Buy 4] 1)) Buy) 10 0)
   \<and> snd (getEstimatedSlippage double
       (fst (handleSnapshot (new_OrderBook ''BTCUSD'' (mk_options None None) 0)
          [mk_level 101 Sell 3, mk_level 100 Sell 2, mk_level 99 Buy 4] 1)) 10 Buy)
     = fst (handleSnapshot (new_OrderBook ''BTCUSD'' (mk_options None None) 0)
          [mk_level 101 Sell 3, mk_level 100 Sell 2, mk_level 99 Buy 4] 1)"
proof -
  let ?s = "fst (handleSnapshot (new_OrderBook ''BTCUSD'' (mk_options None None) 0)
          [mk_level 101 Sell 3, mk_level 100 Sell 2, mk_level 99 Buy 4] 1) :: unit OrderBook"
  have bk: "book ?s = [mk_level 101 Sell 3, mk_level 100 Sell 2, mk_level 99 Buy 4]"
    by (simp add: new_OrderBook_def handleSnapshot_def checkTimestamp_def trimToMaxDepth_def
        sort_levels_def trackDidUpdate_def)
  have rel: "relevantLevels ?s Buy = [mk_level 101 Sell 3, mk_level 100 Sell 2]"
    by (simp add: relevantLevels_def bk)
  have srt: "sortedLevels ?s Buy = [mk_level 100 Sell 2, mk_level 101 Sell 3]"
    by (simp add: sortedLevels_def rel)
  have walk: "walk_exact double (sortedLevels ?s Buy) 10"
    by (simp add: srt Let_def double_small)
  have tot: "sum_list (map qty (relevantLevels ?s Buy)) < 10" by (simp add: rel)
  note inst = slippage_errors[of double ?s 10 Buy]
  have ins: "fst (getEstimatedSlippage double ?s 10 Buy) = Inl InsufficientLiquidity"
    using inst rel walk tot by simp
  have rem: "0 < fst (fill_levels double (sortedLevels ?s Buy) 10 0)"
    using inst rel ins by simp
  have same: "snd (getEstimatedSlippage double ?s 10 Buy) = ?s"
    using inst by simp
  show ?thesis
    using rel walk ins rem same by (simp only: simp_thms)
qed

text \<open>
  C6 (insert of a stored price). The claim: in a state where exactly one stored level
  has price \<open>p\<close> and the cap is large enough that nothing is trimmed, a \<open>handleDelta\<close>
  call whose insert batch contains a level at price \<open>p\<close> replaces the stored level and
  appends the same level, so that two entries at price \<open>p\<close> are present after the call
  and the book is one level longer. Other batch entries break it: with the sells 101
  and 100 and the buy 99 stored, a call that also deletes price 100 leaves one entry
  at 100 and the length at 3, and a call that inserts two levels at price 100 leaves
  three entries at 100 and the length at 5.
\<close>

theorem insert_existing_price_counterexample:
  "book (fst (handleSnapshot (new_OrderBook ''BTCUSD'' (mk_options None None) 0)
       [mk_level 101 Sell 5, mk_level 100 Sell 5, mk_level 99 Buy 2] 1))
     = [mk_level 101 Sell 5, mk_level 100 Sell 5, mk_level 99 Buy 2]
   \<and> maxDepth (fst (handleSnapshot (new_OrderBook ''BTCUSD'' (mk_options None None) 0)
       [mk_level 101 Sell 5, mk_level 100 Sell 5, mk_level 99 Buy 2] 1)) = 250
   \<and> handleDelta (fst (handleSnapshot (new_OrderBook ''BTCUSD'' (mk_options None None) 0)
          [mk_level 101 Sell 5, mk_level 100 Sell 5, mk_level 99 Buy 2] 1))
        [mk_level 100 Sell 5] [] [mk_level 100 Sell 7] 2
     = (\<lparr>book_symbol = ''BTCUSD'',
         book = [mk_level 101 Sell 5, mk_level 100 Sell 7, mk_level 99 Buy 2],
         shouldCheckTimestamps = False, lastUpdateTimestamp = 2, maxDepth = 250\<rparr>, None)
   \<and> handleDelta (fst (handleSnapshot (new_OrderBook ''BTCUSD'' (mk_options None None) 0)
          [mk_level 101 Sell 5, mk_level 100 Sell 5, mk_level 99 Buy 2] 1))
        [] [] [mk_level 100 Sell 7, mk_level 100 Sell 8] 2
     = (\<lparr>book_symbol = ''BTCUSD'',
         book = [mk_level 101 Sell 5, mk_level 100 Sell 8, mk_level 100 Sell 7,
                 mk_level 100 Sell 8, mk_level 99 Buy 2],
         shouldCheckTimestamps = False, lastUpdateTimestamp = 2, maxDepth = 250\<rparr>, None)"
  by (simp add: new_OrderBook_def handleSnapshot_def handleDelta_def checkTimestamp_def
      trimToMaxDepth_def sort_levels_def trackDidUpdate_def delete_level_def insert_level_def
      findIndexForSlice_def replaceLevelAtIndex_def insertLevel_def splice_js_def Let_def)

text \<open>
  C6 as amended. In a state where exactly one stored level has price \<open>p\<close>, take an
  accepted \<open>handleDelta\<close> call whose insert batch contains a level at price \<open>p\<close>, whose
  delete batch and other inserts are at other prices, and whose batches leave the book
  within the cap, so that nothing is trimmed. When the level is reached, the one entry
  at price \<open>p\<close> is replaced at its index and the same level is appended. After the call
  two entries at price \<open>p\<close> are present, both the inserted level, and the book is one
  level longer than after the same call without that insert: its length is that after
  the deletes and upserts, plus one for each insert. (For the call with no other batch
  entry that is one level more than before the call, lemma
  \<open>insert_single_existing_price\<close>.)
\<close>

theorem insert_existing_price_duplicates:
  assumes one: "length (filter (\<lambda>e. price e = p) (book s)) = 1"
    and p: "price lvl = p"
    and others: "\<forall>l\<in>set (deleteDelta @ before @ after). price l \<noteq> p"
    and room: "int (length (book (apply_batches s deleteDelta upsertDelta
                 (before @ [lvl] @ after)))) \<le> maxDepth s"
    and ts: "checkTimestamp s timestamp = None"
  shows "snd (handleDelta s deleteDelta upsertDelta (before @ [lvl] @ after) timestamp) = None
       \<and> 0 \<le> findIndexForSlice (apply_batches s deleteDelta upsertDelta before) lvl
       \<and> findIndexForSlice (apply_batches s deleteDelta upsertDelta before) lvl
           < int (length (book (apply_batches s deleteDelta upsertDelta before)))
       \<and> price (book (apply_batches s deleteDelta upsertDelta before)
                 ! nat (findIndexForSlice (apply_batches s deleteDelta upsertDelta before) lvl))
           = p
       \<and> book (apply_batches s deleteDelta upsertDelta (before @ [lvl]))
           = (book (apply_batches s deleteDelta upsertDelta before))
               [nat (findIndexForSlice (apply_batches s deleteDelta upsertDelta before) lvl)
                  := lvl] @ [lvl]
       \<and> filter (\<lambda>e. price e = p)
            (book (fst (handleDelta s deleteDelta upsertDelta (before @ [lvl] @ after)
               timestamp)))
           = [lvl, lvl]
       \<and> length (book (fst (handleDelta s deleteDelta upsertDelta (before @ [lvl] @ after)
             timestamp)))
           = length (book (fst (handleDelta s deleteDelta upsertDelta (before @ after)
               timestamp))) + 1
       \<and> length (book (fst (handleDelta s deleteDelta upsertDelta (before @ [lvl] @ after)
             timestamp)))
           = length (book (apply_batches s deleteDelta upsertDelta []))
               + length before + length after + 1"
proof -
  let ?P = "\<lambda>e. price e = p"
  define s3 where "s3 = apply_batches s deleteDelta upsertDelta before"
  define s4 where "s4 = insert_level s3 lvl"
  define ins where "ins = before @ [lvl] @ after"
  have "filter ?P (book (foldl delete_level s deleteDelta)) = filter ?P (book s)"
    using others by (simp add: foldl_delete_other_price)
  then have "length (filter ?P (book (foldl delete_level s deleteDelta))) = 1"
    using one by simp
  then have "length (filter ?P (book (foldl upsert_level (foldl delete_level s deleteDelta)
               upsertDelta))) = 1"
    by (rule foldl_upsert_keeps_one)
  then have one3: "length (filter ?P (book s3)) = 1"
    using others by (simp add: s3_def apply_batches_def foldl_insert_other_price)
  note step = insert_level_stored_price[OF one3 p]
  have s4: "apply_batches s deleteDelta upsertDelta (before @ [lvl]) = s4"
    by (simp add: s4_def s3_def apply_batches_def)
  have s5: "apply_batches s deleteDelta upsertDelta ins = foldl insert_level s4 after"
    by (simp add: ins_def s4_def s3_def apply_batches_def)
  have "filter ?P (book (foldl insert_level s4 after)) = filter ?P (book s4)"
    using others by (simp add: foldl_insert_other_price)
  then have f5: "filter ?P (book (apply_batches s deleteDelta upsertDelta ins)) = [lvl, lvl]"
    using step(5) by (simp add: s5 s4_def)
  have room': "int (length (book (apply_batches s deleteDelta upsertDelta ins))) \<le> maxDepth s"
    using room by (simp add: ins_def)
  note with_lvl = handleDelta_untrimmed[OF ts room']
  have len_ins: "length ins = length before + length after + 1" by (simp add: ins_def)
  have len: "length (book (apply_batches s deleteDelta upsertDelta ins))
      = length (book (apply_batches s deleteDelta upsertDelta (before @ after))) + 1"
    using length_apply_batches[of s deleteDelta upsertDelta ins]
      length_apply_batches[of s deleteDelta upsertDelta "before @ after"]
    by (simp add: len_ins)
  then have "int (length (book (apply_batches s deleteDelta upsertDelta (before @ after))))
               \<le> maxDepth s"
    using room' by simp
  note without = handleDelta_untrimmed[OF ts this]
  have l1: "length (book (fst (handleDelta s deleteDelta upsertDelta ins timestamp)))
           = length (book (fst (handleDelta s deleteDelta upsertDelta (before @ after)
               timestamp))) + 1"
    unfolding with_lvl(2) without(2) using len by simp
  have l2: "length (book (fst (handleDelta s deleteDelta upsertDelta ins timestamp)))
           = length (book (apply_batches s deleteDelta upsertDelta []))
               + length before + length after + 1"
    unfolding with_lvl(2)
    using length_apply_batches[of s deleteDelta upsertDelta ins] by (simp add: len_ins)
  have flt: "filter ?P (book (fst (handleDelta s deleteDelta upsertDelta ins timestamp)))
               = [lvl, lvl]"
    unfolding with_lvl(2) by (simp add: filter_sort f5)
  show ?thesis
    using with_lvl(1) step(2,3,4) step(1) flt l1 l2
    unfolding s4 s4_def s3_def[symmetric] ins_def[symmetric] by (simp only: simp_thms)
qed

theorem insert_existing_price_duplicates_witness:
  "length (filter (\<lambda>e. price e = 100)
      (book (fst (handleSnapshot (new_OrderBook ''BTCUSD'' (mk_options (Some True) None) 0)
         [mk_level 101 Sell 5, mk_level 100 Sell 5, mk_level 99 Buy 2] 1)))) = 1
   \<and> filter (\<lambda>e. price e = 100)
      (book (fst (handleDelta
         (fst (handleSnapshot (new_OrderBook ''BTCUSD'' (mk_options (Some True) None) 0)
            [mk_level 101 Sell 5, mk_level 100 Sell 5, mk_level 99 Buy 2] 1))
         [mk_level 99 Buy 2] [mk_level 98 Buy 1]
         ([mk_level 102 Sell 1] @ [mk_level 100 Sell 7] @ [mk_level 97 Buy 3]) 2)))
     = [mk_level 100 Sell 7, mk_level 100 Sell 7]
   \<and> length (book (fst (handleDelta
         (fst (handleSnapshot (new_OrderBook ''BTCUSD'' (mk_options (Some True) None) 0)
            [mk_level 101 Sell 5, mk_level 100 Sell 5, mk_level 99 Buy 2] 1))
         [mk_level 99 Buy 2] [mk_level 98 Buy 1]
         ([mk_level 102 Sell 1] @ [mk_level 100 Sell 7] @ [mk_level 97 Buy 3]) 2))) = 6
   \<and> length (book (fst (handleDelta
         (fst (handleSnapshot (new_OrderBook ''BTCUSD'' (mk_options (Some True) None) 0)
            [mk_level 101 Sell 5, mk_level 100 Sell 5, mk_level 99 Buy 2] 1))
         [mk_level 99 Buy 2] [mk_level 98 Buy 1]
         ([mk_level 102 Sell 1] @ [mk_level 97 Buy 3]) 2))) = 5"
proof -
  let ?s = "fst (handleSnapshot (new_OrderBook ''BTCUSD'' (mk_options (Some True) None) 0)
            [mk_level 101 Sell 5, mk_level 100 Sell 5, mk_level 99 Buy 2] 1) :: unit OrderBook"
  let ?lvl = "mk_level 100 Sell 7"
  have s: "?s = \<lparr>book_symbol = ''BTCUSD'',
                 book = [mk_level 101 Sell 5, mk_level 100 Sell 5, mk_level 99 Buy 2],
                 shouldCheckTimestamps = True, lastUpdateTimestamp = 1, maxDepth = 250\<rparr>"
    by (simp add: new_OrderBook_def handleSnapshot_def checkTimestamp_def trimToMaxDepth_def
        sort_levels_def trackDidUpdate_def)
  have one: "length (filter (\<lambda>e. price e = 100) (book ?s)) = 1" by (simp add: s)
  have p: "price ?lvl = 100" by simp
  have others: "\<forall>l\<in>set ([mk_level 99 Buy 2] @ [mk_level 102 Sell 1] @ [mk_level 97 Buy 3]).
                  price l \<noteq> 100" by simp
  have pre: "book (apply_batches ?s [mk_level 99 Buy 2] [mk_level 98 Buy 1] []) =
               [mk_level 101 Sell 5, mk_level 100 Sell 5, mk_level 98 Buy 1]"
    by (simp add: s apply_batches_def delete_level_def upsert_level_def findIndexForSlice_def
        insertLevel_def splice_js_def Let_def)
  have room: "int (length (book (apply_batches ?s [mk_level 99 Buy 2] [mk_level 98 Buy 1]
                 ([mk_level 102 Sell 1] @ [?lvl] @ [mk_level 97 Buy 3])))) \<le> maxDepth ?s"
    using length_apply_batches[of ?s "[mk_level 99 Buy 2]" "[mk_level 98 Buy 1]"
        "[mk_level 102 Sell 1] @ [?lvl] @ [mk_level 97 Buy 3]"]
    by (simp add: pre) (simp add: s)
  have ts: "checkTimestamp ?s 2 = None" by (simp add: s checkTimestamp_def)
  note inst = insert_existing_price_duplicates[OF one p others room ts]
  have flt: "filter (\<lambda>e. price e = 100)
      (book (fst (handleDelta ?s [mk_level 99 Buy 2] [mk_level 98 Buy 1]
         ([mk_level 102 Sell 1] @ [?lvl] @ [mk_level 97 Buy 3]) 2))) = [?lvl, ?lvl]"
    using inst by (simp only: simp_thms)
  have l2: "length (book (fst (handleDelta ?s [mk_level 99 Buy 2] [mk_level 98 Buy 1]
         ([mk_level 102 Sell 1] @ [?lvl] @ [mk_level 97 Buy 3]) 2))) = 6"
    using inst pre by simp
  have l1: "length (book (fst (handleDelta ?s [mk_level 99 Buy 2] [mk_level 98 Buy 1]
         ([mk_level 102 Sell 1] @ [mk_level 97 Buy 3]) 2))) = 5"
    using inst l2 by simp
  show ?thesis using one flt l2 l1 by (simp only: simp_thms)
qed

text \<open>
  C7 (sort invariant). For every sequence of \<open>handleSnapshot\<close> and \<open>handleDelta\<close> calls
  on a newly constructed book, with any inputs (and with resets in between), the
  stored levels are sorted by price in descending order, buys and sells in the one
  sequence. The sequence is arbitrary, so the statement holds after each of its calls.
\<close>

theorem sort_invariant:
  "sorted_desc (book (foldl apply_call (new_OrderBook name options now) calls))"
proof (induction calls rule: rev_induct)
  case Nil
  show ?case by (simp add: new_OrderBook_def sorted_desc_def)
next
  case (snoc c calls)
  then show ?case by (simp add: apply_call_sorted)
qed

text \<open>
  C8 (spreads). The claim: \<open>getSpreadPercent(n)\<close> is \<open>(1 - bid / ask) * 100\<close> and
  \<open>getSpreadBasisPoints(n)\<close> is \<open>(1 - bid / ask) * 10000\<close> for the best bid and ask at
  offset \<open>n\<close>, and both are \<open>null\<close> exactly when one of the two sides is absent at that
  offset. The guard \<open>!bid || !ask\<close> also takes a price of 0 for absent: with a sell at 1
  and a buy at 0 stored, both sides are present and the spread is \<open>null\<close>.
\<close>

theorem spread_null_counterexample:
  "getBestBid (fst (handleSnapshot (new_OrderBook ''BTCUSD'' (mk_options None None) 0)
       [mk_level 1 Sell 1, mk_level 0 Buy 1] 1)) 0 = Some 0
   \<and> getBestAsk (fst (handleSnapshot (new_OrderBook ''BTCUSD'' (mk_options None None) 0)
       [mk_level 1 Sell 1, mk_level 0 Buy 1] 1)) 0 = Some 1
   \<and> getSpreadPercent (fst (handleSnapshot (new_OrderBook ''BTCUSD'' (mk_options None None) 0)
       [mk_level 1 Sell 1, mk_level 0 Buy 1] 1)) 0 = None
   \<and> getSpreadBasisPoints (fst (handleSnapshot (new_OrderBook ''BTCUSD'' (mk_options None None) 0)
       [mk_level 1 Sell 1, mk_level 0 Buy 1] 1)) 0 = None"
  by (simp add: new_OrderBook_def handleSnapshot_def checkTimestamp_def trimToMaxDepth_def
      sort_levels_def trackDidUpdate_def getSpreadPercent_def getSpreadBasisPoints_def
      getBestBid_def getBestAsk_def at_index_def falsy_def Let_def)

text \<open>
  C8 as amended. For every offset \<open>n\<close>, with the best bid and the best ask at offset
  \<open>n\<close>: when both are present and neither is 0, \<open>getSpreadPercent(n)\<close> is
  \<open>(1 - bid / ask) * 100\<close> and \<open>getSpreadBasisPoints(n)\<close> is \<open>(1 - bid / ask) * 10000\<close>;
  both are \<open>null\<close> exactly when one of the two sides is absent at that offset or the
  bid or the ask found there is 0.
\<close>

theorem spread_values:
  "getSpreadPercent s n =
     (case (getBestBid s n, getBestAsk s n) of
        (Some bid, Some ask) \<Rightarrow>
          if bid = 0 \<or> ask = 0 then None else Some ((1 - bid / ask) * 100)
      | _ \<Rightarrow> None)
   \<and> getSpreadBasisPoints s n =
     (case (getBestBid s n, getBestAsk s n) of
        (Some bid, Some ask) \<Rightarrow>
          if bid = 0 \<or> ask = 0 then None else Some ((1 - bid / ask) * 10000)
      | _ \<Rightarrow> None)
   \<and> (getSpreadPercent s n = None) =
       (getBestBid s n = None \<or> getBestAsk s n = None \<or>
        getBestBid s n = Some 0 \<or> getBestAsk s n = Some 0)
   \<and> (getSpreadBasisPoints s n = None) =
       (getBestBid s n = None \<or> getBestAsk s n = None \<or>
        getBestBid s n = Some 0 \<or> getBestAsk s n = Some 0)"
  by (auto simp: getSpreadPercent_def getSpreadBasisPoints_def falsy_def Let_def
      split: option.splits)

text \<open>
  C9 (slippage across two levels). A new book takes a snapshot of the two sell levels
  at price 100 and at price 101, 5 units each, and stores them highest price first. On
  a book holding exactly these two levels \<open>getBestAsk()\<close> is 100 and
  \<open>getEstimatedSlippage(10, Buy)\<close> returns the execution price 100.5, the slippage 0.5
  percent and 50 basis points, in exact arithmetic.
\<close>

theorem slippage_across_levels:
  "book (fst (handleSnapshot (new_OrderBook name (mk_options None None) now)
       [\<lparr>symbol = n1, price = 100, side = Sell, qty = 5, extraState = x1\<rparr>,
        \<lparr>symbol = n2, price = 101, side = Sell, qty = 5, extraState = x2\<rparr>] timestamp))
     = [\<lparr>symbol = n2, price = 101, side = Sell, qty = 5, extraState = x2\<rparr>,
        \<lparr>symbol = n1, price = 100, side = Sell, qty = 5, extraState = x1\<rparr>]
   \<and> getBestAsk (s\<lparr>book :=
       [\<lparr>symbol = n2, price = 101, side = Sell, qty = 5, extraState = x2\<rparr>,
        \<lparr>symbol = n1, price = 100, side = Sell, qty = 5, extraState = x1\<rparr>]\<rparr>) 0 = Some 100
   \<and> fst (getEstimatedSlippage exact (s\<lparr>book :=
       [\<lparr>symbol = n2, price = 101, side = Sell, qty = 5, extraState = x2\<rparr>,
        \<lparr>symbol = n1, price = 100, side = Sell, qty = 5, extraState = x1\<rparr>]\<rparr>) 10 Buy)
       = Inr (Some \<lparr>executionPrice = 201 / 2, slippagePercent = 1 / 2,
                     slippageBasisPoints = 50\<rparr>)"
  by (simp add: handleSnapshot_def new_OrderBook_def checkTimestamp_def trimToMaxDepth_def
      sort_levels_def trackDidUpdate_def getBestAsk_def at_index_def getEstimatedSlippage_def
      relevantLevels_def sortedLevels_def falsy_def exact_def Let_def)

text \<open>
  C10 (constructor options). A book constructed with the option \<open>maxDepth\<close> omitted or 0
  has \<open>maxDepth = 250\<close>, any other value is taken as given, so that no constructed book
  has a cap of 0; timestamp checking is enabled exactly when the option
  \<open>checkTimestamps\<close> is \<open>true\<close>.
\<close>

theorem constructor_options:
  "maxDepth (new_OrderBook name options now :: 'e OrderBook) =
     (if opt_maxDepth options = None \<or> opt_maxDepth options = Some 0 then 250
      else the (opt_maxDepth options))
   \<and> maxDepth (new_OrderBook name options now :: 'e OrderBook) \<noteq> 0
   \<and> shouldCheckTimestamps (new_OrderBook name options now :: 'e OrderBook) =
       (opt_checkTimestamps options = Some True)"
  by (auto simp: new_OrderBook_def split: option.splits)

end
